theory Spec2Isabelle
  imports Complex_Main "HOL-Library.Word"
begin

section \<open>The STEP importer of rayforge: \<open>StepImporter.get_doc_items\<close>\<close>

text \<open>
  The development embeds \<open>src/rayforge/image/step/importer.py\<close>. The CAD kernel
  (CadQuery) is an external collaborator: every answer it gives for one import call is
  data of the model below, and every call into it may raise. Coordinates, areas and sizes
  are Python floats in the source; they are modelled as real numbers, so rounding,
  overflow and NaN are outside the model. Every exception the model speaks of is an
  instance of Python's \<open>Exception\<close>, the class the handlers of the source catch.
\<close>

subsection \<open>Exceptions and results\<close>

datatype exn = OSError | KernelError | ZeroDivisionError

type_synonym bytes = "8 word list"

type_synonym point = "real \<times> real"

subsection \<open>What the CAD kernel answers\<close>

text \<open>
  An edge answers \<open>startPoint()\<close> and \<open>discretize(tolerance=t)\<close>; a wire answers
  \<open>Edges()\<close>; a workplane answers \<open>vals()\<close>. Only the \<open>x\<close> and \<open>y\<close> attributes of the
  kernel's vectors are read by the importer.
\<close>

record edge =
  startPoint :: "exn + point"
  discretize :: "real \<Rightarrow> exn + point list"

record wire =
  Edges :: "exn + edge list"

record workplane =
  vals :: "exn + wire list"

text \<open>
  A planar face answers \<open>Area()\<close>. \<open>aligned_projection\<close> is the outcome of lines 84 and 87
  for this face and the primary object it was enumerated from:
  \<open>cq.Workplane(obj=face).workplane().add(primary_object).toPending()\<close>.
\<close>

record face =
  Area :: "exn + real"
  aligned_projection :: "exn + workplane"

text \<open>
  \<open>planar_faces\<close> is the outcome of line 75 and 76:
  \<open>cq.Workplane(obj=primary_object).faces("%PLANE").vals()\<close>.
\<close>

record cad_object =
  planar_faces :: "exn + face list"

text \<open>
  The parsed model answers \<open>solids().vals()\<close>, \<open>shells().vals()\<close>, \<open>faces().vals()\<close>
  and \<open>toPending()\<close>.
\<close>

record cad_model =
  solids :: "exn + cad_object list"
  shells :: "exn + cad_object list"
  faces :: "exn + cad_object list"
  toPending :: "exn + workplane"

subsection \<open>The geometry container and the affine matrix\<close>

text \<open>
  Modelled from the spec: the class \<open>Geometry\<close> (\<open>rayforge/core/geo\<close>) is not among the
  sources. The spec's PathGeometry is an ordered collection of subpaths, each a sequence
  of 2D points; \<open>move_to\<close> starts a new subpath at a point and \<open>line_to\<close> appends a point
  to the current (last) subpath. The importer never calls \<open>line_to\<close> before a \<open>move_to\<close>;
  that case is given a fresh subpath here.
\<close>

type_synonym geometry = "point list list"

definition Geometry :: geometry where
  "Geometry = []"

definition move_to :: "geometry \<Rightarrow> real \<Rightarrow> real \<Rightarrow> geometry" where
  "move_to geo x y = geo @ [[(x, y)]]"

definition line_to :: "geometry \<Rightarrow> real \<Rightarrow> real \<Rightarrow> geometry" where
  "line_to geo x y =
     (if geo = [] then [[(x, y)]] else butlast geo @ [last geo @ [(x, y)]])"

text \<open>
  Modelled from the spec: \<open>Geometry.is_empty\<close>, the spec's "is empty" predicate:
  no subpaths, or fewer than the required (two) points.
\<close>

definition is_empty :: "geometry \<Rightarrow> bool" where
  "is_empty geo \<longleftrightarrow> geo = [] \<or> length (concat geo) < 2"

text \<open>
  Modelled from the spec: \<open>Geometry.rect\<close>, the axis-aligned bounding box
  \<open>(min_x, min_y, max_x, max_y)\<close> of all points. The importer calls it on a non-empty
  geometry only.
\<close>

definition rect :: "geometry \<Rightarrow> real \<times> real \<times> real \<times> real" where
  "rect geo =
     (if concat geo = [] then (0, 0, 0, 0)
      else (Min (set (map fst (concat geo))), Min (set (map snd (concat geo))),
            Max (set (map fst (concat geo))), Max (set (map snd (concat geo)))))"

text \<open>
  Modelled from the spec: the class \<open>Matrix\<close> (\<open>rayforge/core/matrix\<close>) is not among the
  sources. The spec's AffineTransform is a 2D affine map built from translations and
  scales; \<open>matmul\<close> is Python's \<open>@\<close> and composes right to left (the right factor is
  applied to a point first). A matrix is kept as its two rows
  \<open>(m_xx, m_xy, m_tx)\<close> and \<open>(m_yx, m_yy, m_ty)\<close>. \<open>to_4x4_numpy\<close> hands the same map
  to \<open>Geometry.transform\<close> and is the identity here.
\<close>

record matrix =
  m_xx :: real
  m_xy :: real
  m_tx :: real
  m_yx :: real
  m_yy :: real
  m_ty :: real

definition translation :: "real \<Rightarrow> real \<Rightarrow> matrix" where
  "translation tx ty =
     \<lparr>m_xx = 1, m_xy = 0, m_tx = tx, m_yx = 0, m_yy = 1, m_ty = ty\<rparr>"

definition scale :: "real \<Rightarrow> real \<Rightarrow> matrix" where
  "scale sx sy =
     \<lparr>m_xx = sx, m_xy = 0, m_tx = 0, m_yx = 0, m_yy = sy, m_ty = 0\<rparr>"

definition matmul :: "matrix \<Rightarrow> matrix \<Rightarrow> matrix" where
  "matmul a b =
     \<lparr>m_xx = m_xx a * m_xx b + m_xy a * m_yx b,
      m_xy = m_xx a * m_xy b + m_xy a * m_yy b,
      m_tx = m_xx a * m_tx b + m_xy a * m_ty b + m_tx a,
      m_yx = m_yx a * m_xx b + m_yy a * m_yx b,
      m_yy = m_yx a * m_xy b + m_yy a * m_yy b,
      m_ty = m_yx a * m_tx b + m_yy a * m_ty b + m_ty a\<rparr>"

definition apply_matrix :: "matrix \<Rightarrow> point \<Rightarrow> point" where
  "apply_matrix m p =
     (m_xx m * fst p + m_xy m * snd p + m_tx m,
      m_yx m * fst p + m_yy m * snd p + m_ty m)"

definition to_4x4_numpy :: "matrix \<Rightarrow> matrix" where
  "to_4x4_numpy m = m"

text \<open>
  Modelled from the spec: \<open>Geometry.transform\<close> applies the affine map to every point
  and keeps the subpaths; \<open>Geometry.copy\<close> is the identity on values.
\<close>

definition transform :: "geometry \<Rightarrow> matrix \<Rightarrow> geometry" where
  "transform geo m = map (map (apply_matrix m)) geo"

definition copy :: "geometry \<Rightarrow> geometry" where
  "copy geo = geo"

subsection \<open>The importer, its surroundings and its result\<close>

text \<open>
  \<open>source_file\<close> is a \<open>pathlib.Path\<close>; only its text and its \<open>stem\<close> are used.
\<close>

record path =
  path_text :: string
  stem :: string

record importer =
  raw_data :: bytes
  source_file :: path

text \<open>
  What one call meets outside the importer: whether the CadQuery module loaded
  (\<open>CQ_AVAILABLE\<close>), the outcome of creating and writing the temporary file of lines
  43 to 45 (its name, or the exception raised), the kernel's \<open>importStep\<close> as a function
  of the bytes the file holds, and the identifier the new \<open>SourceAsset\<close> receives.
\<close>

record world =
  CQ_AVAILABLE :: bool
  NamedTemporaryFile :: "exn + string"
  importStep :: "bytes \<Rightarrow> exn + cad_model"
  new_uid :: string

datatype vectorization_spec = PassthroughSpec

record source_asset =
  sa_source_file :: path
  sa_original_data :: bytes
  sa_is_vector :: bool
  sa_natural_size :: "real \<times> real"
  sa_width_mm :: real
  sa_height_mm :: real
  sa_uid :: string

record source_asset_segment =
  source_asset_uid :: string
  segment_mask_geometry :: geometry
  seg_vectorization_spec :: vectorization_spec
  seg_width_mm :: real
  seg_height_mm :: real

record workpiece =
  wp_name :: string
  source_segment :: source_asset_segment
  wp_matrix :: matrix

record import_payload =
  source :: source_asset
  items :: "workpiece list"

subsection \<open>Object detection (lines 54 to 66)\<close>

definition target_objects :: "cad_model \<Rightarrow> exn + cad_object list" where
  "target_objects model =
     (case solids model of
        Inl e \<Rightarrow> Inl e
      | Inr so \<Rightarrow>
          if so \<noteq> [] then Inr so
          else (case shells model of
                  Inl e \<Rightarrow> Inl e
                | Inr sh \<Rightarrow> if sh \<noteq> [] then Inr sh else faces model))"

text \<open>
  Lines 54 to 66: the object the projection is planned for. \<open>Inr None\<close> is the
  \<open>return None\<close> of line 64.
\<close>

definition primary_object :: "cad_model \<Rightarrow> exn + cad_object option" where
  "primary_object model =
     (case target_objects model of
        Inl e \<Rightarrow> Inl e
      | Inr objs \<Rightarrow> if objs = [] then Inr None else Inr (Some (objs ! 0)))"

subsection \<open>Face selection and alignment (lines 69 to 94)\<close>

text \<open>
  \<open>faces.sort(key=lambda f: f.Area(), reverse=True)\<close>: Python computes every key first
  (a raising key aborts the sort), then sorts stably; with \<open>reverse=True\<close> the order is
  descending and elements with equal keys keep their original order. That is a stable
  ascending sort on the negated key.
\<close>

fun eval_keys :: "face list \<Rightarrow> exn + real list" where
  "eval_keys [] = Inr []"
| "eval_keys (f # fs) =
     (case Area f of
        Inl e \<Rightarrow> Inl e
      | Inr a \<Rightarrow> (case eval_keys fs of Inl e \<Rightarrow> Inl e | Inr ks \<Rightarrow> Inr (a # ks)))"

definition sort_faces :: "face list \<Rightarrow> exn + face list" where
  "sort_faces fs =
     (case eval_keys fs of
        Inl e \<Rightarrow> Inl e
      | Inr ks \<Rightarrow> Inr (map snd (sort_key (\<lambda>kf. - fst kf) (zip ks fs))))"

text \<open>Lines 78 to 81: the face the alignment uses, if there is any planar face.\<close>

definition largest_face :: "face list \<Rightarrow> exn + face option" where
  "largest_face fs =
     (if fs \<noteq> [] then
        (case sort_faces fs of Inl e \<Rightarrow> Inl e | Inr sorted_faces \<Rightarrow> Inr (Some (sorted_faces ! 0)))
      else Inr None)"

text \<open>The body of the inner \<open>try\<close> (lines 73 to 88); \<open>None\<close> is Python's \<open>None\<close>.\<close>

definition try_align :: "cad_object \<Rightarrow> exn + workplane option" where
  "try_align obj =
     (case planar_faces obj of
        Inl e \<Rightarrow> Inl e
      | Inr fs \<Rightarrow>
          (case largest_face fs of
             Inl e \<Rightarrow> Inl e
           | Inr None \<Rightarrow> Inr None
           | Inr (Some f) \<Rightarrow>
               (case aligned_projection f of
                  Inl e \<Rightarrow> Inl e
                | Inr projection \<Rightarrow> Inr (Some projection))))"

text \<open>Lines 69 to 90: \<open>projection\<close> stays \<open>None\<close> when the inner \<open>try\<close> raises.\<close>

definition auto_align :: "cad_object \<Rightarrow> workplane option" where
  "auto_align obj =
     (case try_align obj of Inl e \<Rightarrow> None | Inr projection \<Rightarrow> projection)"

text \<open>Lines 69 to 94: the projection the conversion works on.\<close>

definition choose_projection :: "cad_model \<Rightarrow> cad_object \<Rightarrow> exn + workplane" where
  "choose_projection model obj =
     (case auto_align obj of
        None \<Rightarrow> toPending model
      | Some projection \<Rightarrow> Inr projection)"

subsection \<open>Geometry conversion (lines 97 to 126)\<close>

text \<open>
  The inner loop over the edges of one wire, on the state \<open>(geo, edge_count)\<close>. An edge
  whose \<open>discretize\<close> raises, or returns no points, is passed over.
\<close>

definition line_to_all :: "point list \<Rightarrow> geometry \<Rightarrow> geometry" where
  "line_to_all ps geo = fold (\<lambda>p g. line_to g (fst p) (snd p)) ps geo"

fun process_edges :: "edge list \<Rightarrow> geometry \<times> nat \<Rightarrow> geometry \<times> nat" where
  "process_edges [] st = st"
| "process_edges (e # es) (geo, edge_count) =
     (case discretize e (5 / 100) of
        Inl ex \<Rightarrow> process_edges es (geo, edge_count)
      | Inr points \<Rightarrow>
          if points = [] then process_edges es (geo, edge_count)
          else process_edges es (line_to_all (tl points) geo, edge_count + 1))"

text \<open>The outer loop over the wires; \<open>Edges()\<close> and \<open>startPoint()\<close> are not guarded.\<close>

fun process_wires :: "wire list \<Rightarrow> geometry \<times> nat \<Rightarrow> exn + geometry \<times> nat" where
  "process_wires [] st = Inr st"
| "process_wires (w # ws) (geo, edge_count) =
     (case Edges w of
        Inl e \<Rightarrow> Inl e
      | Inr edges \<Rightarrow>
          if edges = [] then process_wires ws (geo, edge_count)
          else (case startPoint (edges ! 0) of
                  Inl e \<Rightarrow> Inl e
                | Inr start_p \<Rightarrow>
                    process_wires ws
                      (process_edges edges (move_to geo (fst start_p) (snd start_p), edge_count))))"

subsection \<open>Normalization and packaging (lines 135 to 172)\<close>

definition float_div :: "real \<Rightarrow> real \<Rightarrow> exn + real" where
  "float_div a b = (if b = 0 then Inl ZeroDivisionError else Inr (a / b))"

definition flip_y :: matrix where
  "flip_y = matmul (translation 0 1) (scale 1 (- 1))"

text \<open>Lines 149 to 156.\<close>

definition normalize_geometry :: "geometry \<Rightarrow> exn + geometry" where
  "normalize_geometry geo =
     (case rect geo of (min_x, min_y, max_x, max_y) \<Rightarrow>
        let width = max_x - min_x;
            height = max_y - min_y;
            norm_geo = transform (copy geo) (to_4x4_numpy (translation (- min_x) (- min_y)))
        in if width > 0 \<and> height > 0 then
             (case float_div 1 width of
                Inl e \<Rightarrow> Inl e
              | Inr sx \<Rightarrow>
                  (case float_div 1 height of
                     Inl e \<Rightarrow> Inl e
                   | Inr sy \<Rightarrow>
                       Inr (transform (transform norm_geo (to_4x4_numpy (scale sx sy)))
                              (to_4x4_numpy flip_y))))
           else Inr (transform norm_geo (to_4x4_numpy flip_y)))"

text \<open>Line 170.\<close>

definition placement :: "geometry \<Rightarrow> matrix" where
  "placement geo =
     (case rect geo of (min_x, min_y, max_x, max_y) \<Rightarrow>
        matmul (translation min_x min_y) (scale (max_x - min_x) (max_y - min_y)))"

definition package :: "world \<Rightarrow> importer \<Rightarrow> geometry \<Rightarrow> exn + import_payload" where
  "package w imp geo =
     (case rect geo of (min_x, min_y, max_x, max_y) \<Rightarrow>
        let width = max_x - min_x;
            height = max_y - min_y;
            src = \<lparr>sa_source_file = source_file imp, sa_original_data = raw_data imp,
                   sa_is_vector = True, sa_natural_size = (width, height),
                   sa_width_mm = width, sa_height_mm = height, sa_uid = new_uid w\<rparr>
        in (case normalize_geometry geo of
              Inl e \<Rightarrow> Inl e
            | Inr norm_geo \<Rightarrow>
                Inr \<lparr>source = src,
                     items =
                       [\<lparr>wp_name = stem (source_file imp),
                         source_segment =
                           \<lparr>source_asset_uid = sa_uid src,
                            segment_mask_geometry = norm_geo,
                            seg_vectorization_spec = PassthroughSpec,
                            seg_width_mm = width, seg_height_mm = height\<rparr>,
                         wp_matrix = placement geo\<rparr>]\<rparr>))"

subsection \<open>The entry point\<close>

text \<open>Lines 101 to 172: from the projection to the payload.\<close>

definition extract_geometry :: "workplane \<Rightarrow> exn + (geometry \<times> nat) option" where
  "extract_geometry projection =
     (case vals projection of
        Inl e \<Rightarrow> Inl e
      | Inr wires \<Rightarrow>
          if wires = [] then Inr None
          else (case process_wires wires (Geometry, 0) of
                  Inl e \<Rightarrow> Inl e
                | Inr (geo, edge_count) \<Rightarrow>
                    if is_empty geo then Inr None else Inr (Some (geo, edge_count))))"

definition convert :: "world \<Rightarrow> importer \<Rightarrow> workplane \<Rightarrow> exn + import_payload option" where
  "convert w imp projection =
     (case extract_geometry projection of
        Inl e \<Rightarrow> Inl e
      | Inr None \<Rightarrow> Inr None
      | Inr (Some (geo, edge_count)) \<Rightarrow>
          (case package w imp geo of Inl e \<Rightarrow> Inl e | Inr payload \<Rightarrow> Inr (Some payload)))"

text \<open>
  The body of the outer \<open>try\<close> (lines 48 to 172): \<open>Inl\<close> is an exception raised inside
  it, \<open>Inr None\<close> one of its \<open>return None\<close>.
\<close>

definition try_body :: "world \<Rightarrow> importer \<Rightarrow> exn + import_payload option" where
  "try_body w imp =
     (case importStep w (raw_data imp) of
        Inl e \<Rightarrow> Inl e
      | Inr model \<Rightarrow>
          (case primary_object model of
             Inl e \<Rightarrow> Inl e
           | Inr None \<Rightarrow> Inr None
           | Inr (Some obj) \<Rightarrow>
               (case choose_projection model obj of
                  Inl e \<Rightarrow> Inl e
                | Inr projection \<Rightarrow> convert w imp projection)))"

text \<open>
  \<open>get_doc_items\<close> (lines 37 to 183). \<open>Inl\<close> is an exception that reaches the caller. The
  temporary file is written before the \<open>try\<close> begins; the handler of line 174 turns every
  exception of the body into \<open>None\<close>. The \<open>finally\<close> clause removes the file, swallows
  every failure of that and does not touch the result.
\<close>

definition get_doc_items :: "world \<Rightarrow> importer \<Rightarrow> exn + import_payload option" where
  "get_doc_items w imp =
     (if \<not> CQ_AVAILABLE w then Inr None
      else (case NamedTemporaryFile w of
              Inl e \<Rightarrow> Inl e
            | Inr tmp_path \<Rightarrow>
                (case try_body w imp of Inl e \<Rightarrow> Inr None | Inr result \<Rightarrow> Inr result)))"

subsection \<open>Reading a result\<close>




subsection \<open>What one loop contributes\<close>

text \<open>
  The points an edge adds to the current subpath, whether it is counted in
  \<open>edge_count\<close>, and the subpath and count a whole wire contributes. The lemmas
  \<open>process_edges_eq\<close> and \<open>process_wires_Cons\<close> below show that the loops of the source
  compute exactly these.
\<close>

definition edge_points :: "edge \<Rightarrow> point list" where
  "edge_points e = (case discretize e (5 / 100) of Inl ex \<Rightarrow> [] | Inr points \<Rightarrow> tl points)"

definition edge_counted :: "edge \<Rightarrow> bool" where
  "edge_counted e = (case discretize e (5 / 100) of Inl ex \<Rightarrow> False | Inr points \<Rightarrow> points \<noteq> [])"

definition wire_subpath :: "wire \<Rightarrow> exn + (point list \<times> nat) option" where
  "wire_subpath w =
     (case Edges w of
        Inl e \<Rightarrow> Inl e
      | Inr edges \<Rightarrow>
          if edges = [] then Inr None
          else (case startPoint (edges ! 0) of
                  Inl e \<Rightarrow> Inl e
                | Inr start_p \<Rightarrow>
                    Inr (Some (start_p # concat (map edge_points edges),
                               length (filter edge_counted edges)))))"

subsection \<open>Sample kernel answers\<close>

text \<open>
  Concrete answers of the kernel, to run the definitions on: straight edges, an edge
  whose discretization raises, one that returns no points, one that cannot be evaluated
  at all, a rectangular outline, and a model made of solids.
\<close>

definition line_edge :: "point \<Rightarrow> point \<Rightarrow> edge" where
  "line_edge a b = \<lparr>startPoint = Inr a, discretize = (\<lambda>t. Inr [a, b])\<rparr>"




definition wire_of :: "edge list \<Rightarrow> wire" where
  "wire_of es = \<lparr>Edges = Inr es\<rparr>"

definition outline :: "point \<Rightarrow> point \<Rightarrow> workplane" where
  "outline a b =
     \<lparr>vals = Inr [wire_of [line_edge a (fst b, snd a), line_edge (fst b, snd a) b,
                              line_edge b (fst a, snd b), line_edge (fst a, snd b) a]]\<rparr>"

definition flat_face :: "real \<Rightarrow> workplane \<Rightarrow> face" where
  "flat_face a projection = \<lparr>Area = Inr a, aligned_projection = Inr projection\<rparr>"

definition object_with :: "face list \<Rightarrow> cad_object" where
  "object_with fs = \<lparr>planar_faces = Inr fs\<rparr>"

definition solid_model :: "cad_object list \<Rightarrow> workplane \<Rightarrow> cad_model" where
  "solid_model objs fallback =
     \<lparr>solids = Inr objs, shells = Inr [], faces = Inr [], toPending = Inr fallback\<rparr>"

definition kernel_world :: "cad_model \<Rightarrow> world" where
  "kernel_world m =
     \<lparr>CQ_AVAILABLE = True, NamedTemporaryFile = Inr ''/tmp/tmp0.step'',
      importStep = (\<lambda>data. Inr m), new_uid = ''asset-0''\<rparr>"

definition step_importer :: importer where
  "step_importer = \<lparr>raw_data = [], source_file = \<lparr>path_text = ''plate.step'', stem = ''plate''\<rparr>\<rparr>"

definition sample_faces :: "face list" where
  "sample_faces =
     [flat_face 2 (outline (0, 0) (1, 1)), flat_face 8 (outline (1, 1) (5, 3)),
      flat_face 8 (outline (0, 0) (2, 2)), flat_face 3 (outline (0, 0) (3, 1))]"


definition raising_face :: face where
  "raising_face = \<lparr>Area = Inl KernelError, aligned_projection = Inr (outline (0, 0) (2, 2))\<rparr>"

definition plate_model :: cad_model where
  "plate_model = solid_model [object_with sample_faces] (outline (0, 0) (9, 9))"

definition curved_object :: cad_object where
  "curved_object = object_with [flat_face 2 (outline (0, 0) (1, 1)), raising_face]"

definition curved_model :: cad_model where
  "curved_model = solid_model [curved_object] (outline (0, 0) (4, 2))"

definition empty_model :: cad_model where
  "empty_model = \<lparr>solids = Inr [], shells = Inr [], faces = Inr [], toPending = Inr (outline (0, 0) (4, 2))\<rparr>"









section \<open>Auxiliary facts\<close>

subsection \<open>Sorting the faces\<close>

lemma eval_keys_Inr:
  "eval_keys fs = Inr ks \<Longrightarrow> map Area fs = map Inr ks"
  by (induction fs arbitrary: ks) (auto split: sum.splits)

lemma eval_keys_total:
  "\<forall>f\<in>set fs. \<not> isl (Area f) \<Longrightarrow> \<exists>ks. eval_keys fs = Inr ks"
proof (induction fs)
  case Nil
  then show ?case by simp
next
  case (Cons f fs)
  then obtain ks where "eval_keys fs = Inr ks" by auto
  moreover from Cons.prems obtain a where "Area f = Inr a"
    by (cases "Area f") auto
  ultimately show ?case by simp
qed

lemma eval_keys_raises:
  "eval_keys fs = Inl e \<Longrightarrow> \<exists>f\<in>set fs. Area f = Inl e"
  by (induction fs) (auto split: sum.splits)

lemma raises_eval_keys:
  "f \<in> set fs \<Longrightarrow> isl (Area f) \<Longrightarrow> isl (eval_keys fs)"
  by (induction fs) (auto split: sum.splits)

lemma hd_insort_key:
  "hd (insort_key k x ys) = (if ys = [] \<or> k x \<le> k (hd ys) then x else hd ys)"
  by (cases ys) auto

lemma hd_sort_key_first_least:
  fixes k :: "'a \<Rightarrow> 'b::linorder"
  shows "xs \<noteq> [] \<Longrightarrow>
    \<exists>i<length xs. hd (sort_key k xs) = xs ! i \<and>
       (\<forall>j<length xs. k (xs ! i) \<le> k (xs ! j)) \<and> (\<forall>j<i. k (xs ! i) < k (xs ! j))"
proof (induction xs)
  case Nil
  then show ?case by simp
next
  case (Cons x xs)
  show ?case
  proof (cases "xs = []")
    case True
    then show ?thesis by simp
  next
    case False
    with Cons.IH obtain i where i: "i < length xs" "hd (sort_key k xs) = xs ! i"
      "\<forall>j<length xs. k (xs ! i) \<le> k (xs ! j)" "\<forall>j<i. k (xs ! i) < k (xs ! j)"
      by blast
    have ne: "sort_key k xs \<noteq> []" using False by (metis length_sort length_0_conv)
    show ?thesis
    proof (cases "k x \<le> k (xs ! i)")
      case True
      have "hd (sort_key k (x # xs)) = x"
        using True i(2) by (simp add: hd_insort_key)
      moreover have "\<forall>j<length (x # xs). k x \<le> k ((x # xs) ! j)"
      proof (intro allI impI)
        fix j assume "j < length (x # xs)"
        then show "k x \<le> k ((x # xs) ! j)"
          using True i(3) by (cases j) (auto intro: order_trans)
      qed
      ultimately show ?thesis by (intro exI[of _ 0]) simp
    next
      case False
      then have lt: "k (xs ! i) < k x" by simp
      have "hd (sort_key k (x # xs)) = xs ! i"
        using False i(2) ne by (simp add: hd_insort_key)
      moreover have "\<forall>j<length (x # xs). k (xs ! i) \<le> k ((x # xs) ! j)"
      proof (intro allI impI)
        fix j assume "j < length (x # xs)"
        then show "k (xs ! i) \<le> k ((x # xs) ! j)"
          using lt i(3) by (cases j) auto
      qed
      moreover have "\<forall>j<Suc i. k (xs ! i) < k ((x # xs) ! j)"
      proof (intro allI impI)
        fix j assume "j < Suc i"
        then show "k (xs ! i) < k ((x # xs) ! j)"
          using lt i(4) by (cases j) auto
      qed
      ultimately show ?thesis using i(1) by (intro exI[of _ "Suc i"]) simp
    qed
  qed
qed

lemma largest_face_Some:
  assumes "largest_face fs = Inr (Some f)"
  shows "\<exists>ks i. eval_keys fs = Inr ks \<and> i < length fs \<and> f = fs ! i \<and>
           (\<forall>j<length fs. ks ! j \<le> ks ! i) \<and> (\<forall>j<i. ks ! j < ks ! i)"
proof -
  from assms have ne: "fs \<noteq> []" by (auto simp: largest_face_def split: if_splits)
  from assms ne obtain ks where ks: "eval_keys fs = Inr ks"
    and f: "f = map snd (sort_key (\<lambda>kf. - fst kf) (zip ks fs)) ! 0"
    by (auto simp: largest_face_def sort_faces_def split: sum.splits)
  have len: "length ks = length fs"
    using eval_keys_Inr[OF ks] by (metis length_map)
  let ?z = "zip ks fs"
  have zne: "?z \<noteq> []" using ne len by (cases ks; cases fs) auto
  then have sne: "sort_key (\<lambda>kf. - fst kf) ?z \<noteq> []"
    by (metis length_sort length_0_conv)
  from hd_sort_key_first_least[OF zne, of "\<lambda>kf. - fst kf"]
  obtain i where i: "i < length ?z" "hd (sort_key (\<lambda>kf. - fst kf) ?z) = ?z ! i"
    "\<forall>j<length ?z. - fst (?z ! i) \<le> - fst (?z ! j)" "\<forall>j<i. - fst (?z ! i) < - fst (?z ! j)"
    by blast
  have il: "i < length fs" using i(1) len by simp
  have "0 < length (sort_key (\<lambda>kf. - fst kf) ?z)" using sne by blast
  then have "f = snd (hd (sort_key (\<lambda>kf. - fst kf) ?z))"
    using f sne by (simp add: hd_conv_nth)
  then have "f = fs ! i" using i(2) il len by simp
  moreover have "\<forall>j<length fs. ks ! j \<le> ks ! i"
    using i(3) il len by auto
  moreover have "\<forall>j<i. ks ! j < ks ! i"
    using i(4) il len by auto
  ultimately show ?thesis using ks il by blast
qed


subsection \<open>Objects, alignment and the entry point\<close>

lemma target_objects_cases:
  "target_objects m = Inr objs \<Longrightarrow>
     (solids m = Inr objs \<and> objs \<noteq> []) \<or>
     (solids m = Inr [] \<and> shells m = Inr objs \<and> objs \<noteq> []) \<or>
     (solids m = Inr [] \<and> shells m = Inr [] \<and> faces m = Inr objs)"
  by (auto simp: target_objects_def split: sum.splits if_splits)

lemma get_doc_items_of_body:
  "CQ_AVAILABLE w \<Longrightarrow> NamedTemporaryFile w = Inr tmp_path \<Longrightarrow>
   get_doc_items w imp = Inr (case try_body w imp of Inl e \<Rightarrow> None | Inr result \<Rightarrow> result)"
  by (simp add: get_doc_items_def split: sum.splits)

lemma get_doc_items_no_exception:
  "\<not> CQ_AVAILABLE w \<or> NamedTemporaryFile w = Inr tmp_path \<Longrightarrow> \<not> isl (get_doc_items w imp)"
  by (auto simp: get_doc_items_def split: sum.splits)

lemma try_align_raises_iff:
  "isl (try_align obj) \<longleftrightarrow>
     isl (planar_faces obj) \<or>
     (\<exists>fs. planar_faces obj = Inr fs \<and>
        ((\<exists>f\<in>set fs. isl (Area f)) \<or>
         (\<exists>f. largest_face fs = Inr (Some f) \<and> isl (aligned_projection f))))"
proof (cases "planar_faces obj")
  case (Inl e)
  then show ?thesis by (simp add: try_align_def)
next
  case (Inr fs)
  show ?thesis
  proof (cases "largest_face fs")
    case (Inl e)
    then have "isl (eval_keys fs)"
      by (auto simp: largest_face_def sort_faces_def split: if_splits sum.splits)
    then obtain e' where "eval_keys fs = Inl e'" by (cases "eval_keys fs") auto
    then have "\<exists>f\<in>set fs. Area f = Inl e'" by (rule eval_keys_raises)
    then have "\<exists>f\<in>set fs. isl (Area f)" by (metis sum.disc(1))
    with Inl Inr show ?thesis by (simp add: try_align_def)
  next
    case r: (Inr fo)
    have "\<not> (\<exists>f\<in>set fs. isl (Area f))"
    proof
      assume "\<exists>f\<in>set fs. isl (Area f)"
      then have "isl (eval_keys fs)" using raises_eval_keys by blast
      moreover from this have "fs \<noteq> []" by (cases fs) auto
      ultimately show False using r
        by (auto simp: largest_face_def sort_faces_def split: sum.splits)
    qed
    with r Inr show ?thesis
      by (cases fo) (auto simp: try_align_def split: sum.splits)
  qed
qed

subsection \<open>The assembly of the geometry\<close>

lemma line_to_all_append:
  "geo \<noteq> [] \<Longrightarrow> line_to_all ps geo = butlast geo @ [last geo @ ps]"
proof (induction ps arbitrary: geo)
  case Nil
  then show ?case by (simp add: line_to_all_def)
next
  case (Cons p ps)
  let ?g = "line_to geo (fst p) (snd p)"
  have g: "?g = butlast geo @ [last geo @ [p]]" using Cons.prems by (simp add: line_to_def)
  then have "?g \<noteq> []" by simp
  from Cons.IH[OF this] have "line_to_all ps ?g = butlast ?g @ [last ?g @ ps]" .
  moreover have "line_to_all (p # ps) geo = line_to_all ps ?g" by (simp add: line_to_all_def)
  ultimately show ?case using g by simp
qed

lemma process_edges_eq:
  "geo \<noteq> [] \<Longrightarrow>
   process_edges es (geo, n) =
     (butlast geo @ [last geo @ concat (map edge_points es)], n + length (filter edge_counted es))"
proof (induction es arbitrary: geo n)
  case Nil
  then show ?case by simp
next
  case (Cons e es)
  show ?case
  proof (cases "discretize e (5 / 100)")
    case (Inl ex)
    then show ?thesis using Cons by (simp add: edge_points_def edge_counted_def)
  next
    case (Inr points)
    show ?thesis
    proof (cases "points = []")
      case True
      then show ?thesis using Inr Cons by (simp add: edge_points_def edge_counted_def)
    next
      case False
      let ?g = "line_to_all (tl points) geo"
      have g: "?g = butlast geo @ [last geo @ tl points]"
        using Cons.prems by (rule line_to_all_append)
      then have "?g \<noteq> []" by simp
      from Cons.IH[OF this, of "n + 1"] g False Inr show ?thesis
        by (simp add: edge_points_def edge_counted_def)
    qed
  qed
qed

lemma process_wires_Cons:
  "process_wires (w # ws) (geo, n) =
     (case wire_subpath w of
        Inl e \<Rightarrow> Inl e
      | Inr None \<Rightarrow> process_wires ws (geo, n)
      | Inr (Some (sp, k)) \<Rightarrow> process_wires ws (geo @ [sp], n + k))"
  by (simp add: wire_subpath_def move_to_def process_edges_eq split: sum.splits)

lemma process_wires_append:
  "process_wires (ws @ vs) st =
     (case process_wires ws st of Inl e \<Rightarrow> Inl e | Inr st' \<Rightarrow> process_wires vs st')"
proof (induction ws arbitrary: st)
  case Nil
  then show ?case by simp
next
  case (Cons w ws)
  obtain geo n where st: "st = (geo, n)" by (cases st)
  show ?case unfolding st append_Cons process_wires_Cons
    using Cons.IH by (simp split: sum.splits option.splits prod.splits)
qed

lemma wire_subpath_nonempty: "wire_subpath w = Inr (Some (sp, k)) \<Longrightarrow> sp \<noteq> []"
  by (auto simp: wire_subpath_def split: sum.splits if_splits)

lemma process_wires_subpaths:
  "process_wires ws (geo, n) = Inr (geo', n') \<Longrightarrow>
   \<exists>sps. geo' = geo @ sps \<and> (\<forall>sp\<in>set sps. sp \<noteq> [])"
proof (induction ws arbitrary: geo n)
  case Nil
  then show ?case by simp
next
  case (Cons w ws)
  from Cons.prems have pw:
    "(case wire_subpath w of
        Inl e \<Rightarrow> Inl e
      | Inr None \<Rightarrow> process_wires ws (geo, n)
      | Inr (Some (sp, k)) \<Rightarrow> process_wires ws (geo @ [sp], n + k)) = Inr (geo', n')"
    by (simp only: process_wires_Cons)
  show ?case
  proof (cases "wire_subpath w")
    case (Inl e)
    with pw show ?thesis by simp
  next
    case (Inr r)
    show ?thesis
    proof (cases r)
      case None
      with Inr pw Cons.IH show ?thesis by simp
    next
      case (Some a)
      obtain sp k where a: "a = (sp, k)" by (cases a)
      with Some Inr pw have "process_wires ws (geo @ [sp], n + k) = Inr (geo', n')"
        by simp
      from Cons.IH[OF this] obtain sps where "geo' = (geo @ [sp]) @ sps" "\<forall>sp\<in>set sps. sp \<noteq> []"
        by blast
      moreover have "sp \<noteq> []" using Inr Some a wire_subpath_nonempty by blast
      ultimately have "geo' = geo @ (sp # sps) \<and> (\<forall>s\<in>set (sp # sps). s \<noteq> [])" by simp
      then show ?thesis by blast
    qed
  qed
qed


lemma norm_point_scaled:
  "apply_matrix flip_y (apply_matrix (scale (1 / w) (1 / h)) (apply_matrix (translation (- a) (- b)) p)) =
     ((fst p - a) / w, 1 - (snd p - b) / h)"
  by (simp add: apply_matrix_def flip_y_def matmul_def scale_def translation_def minus_divide_left)

lemma norm_point_unscaled:
  "apply_matrix flip_y (apply_matrix (translation (- a) (- b)) p) = (fst p - a, 1 - (snd p - b))"
  by (simp add: apply_matrix_def flip_y_def matmul_def scale_def translation_def)

lemma apply_flip_y: "apply_matrix flip_y p = (fst p, 1 - snd p)"
  by (simp add: apply_matrix_def flip_y_def matmul_def scale_def translation_def)

lemma normalize_geometry_compose:
  assumes "rect geo = (min_x, min_y, max_x, max_y)"
  shows "normalize_geometry geo =
     Inr (transform
            (if 0 < max_x - min_x \<and> 0 < max_y - min_y
             then transform (transform geo (translation (- min_x) (- min_y)))
                    (scale (1 / (max_x - min_x)) (1 / (max_y - min_y)))
             else transform geo (translation (- min_x) (- min_y)))
            flip_y)"
  using assms by (simp add: normalize_geometry_def float_div_def copy_def to_4x4_numpy_def Let_def)

lemma normalize_geometry_pointwise:
  assumes "rect geo = (min_x, min_y, max_x, max_y)"
  shows "normalize_geometry geo =
     Inr (map (map (\<lambda>p. if 0 < max_x - min_x \<and> 0 < max_y - min_y
                         then ((fst p - min_x) / (max_x - min_x), 1 - (snd p - min_y) / (max_y - min_y))
                         else (fst p - min_x, 1 - (snd p - min_y)))) geo)"
proof -
  define c where "c \<longleftrightarrow> 0 < max_x - min_x \<and> 0 < max_y - min_y"
  have "transform
          (if c then transform (transform geo (translation (- min_x) (- min_y)))
                       (scale (1 / (max_x - min_x)) (1 / (max_y - min_y)))
           else transform geo (translation (- min_x) (- min_y)))
          flip_y =
        map (map (\<lambda>p. if c
                         then ((fst p - min_x) / (max_x - min_x), 1 - (snd p - min_y) / (max_y - min_y))
                         else (fst p - min_x, 1 - (snd p - min_y)))) geo"
    by (cases c) (simp_all add: transform_def norm_point_scaled norm_point_unscaled o_def)
  then show ?thesis
    unfolding c_def by (simp only: normalize_geometry_compose[OF assms])
qed










subsection \<open>Independence of the surroundings\<close>


subsection \<open>The placement matrix\<close>

lemma Min_image_minus:
  fixes S :: "real set"
  assumes "finite S" "S \<noteq> {}"
  shows "Min ((\<lambda>y. k - y) ` S) = k - Max S"
proof (rule Min_eqI)
  show "finite ((\<lambda>y. k - y) ` S)" using assms by simp
next
  fix y assume "y \<in> (\<lambda>y. k - y) ` S"
  then obtain s where "s \<in> S" "y = k - s" by blast
  moreover have "s \<le> Max S" using assms \<open>s \<in> S\<close> by simp
  ultimately show "k - Max S \<le> y" by simp
next
  have "Max S \<in> S" using assms by (rule Max_in)
  then show "k - Max S \<in> (\<lambda>y. k - y) ` S" by blast
qed

lemma Max_image_minus:
  fixes S :: "real set"
  assumes "finite S" "S \<noteq> {}"
  shows "Max ((\<lambda>y. k - y) ` S) = k - Min S"
proof (rule Max_eqI)
  show "finite ((\<lambda>y. k - y) ` S)" using assms by simp
next
  fix y assume "y \<in> (\<lambda>y. k - y) ` S"
  then obtain s where "s \<in> S" "y = k - s" by blast
  moreover have "Min S \<le> s" using assms \<open>s \<in> S\<close> by simp
  ultimately show "y \<le> k - Min S" by simp
next
  have "Min S \<in> S" using assms by (rule Min_in)
  then show "k - Min S \<in> (\<lambda>y. k - y) ` S" by blast
qed

lemma rect_mirrored:
  assumes "concat geo \<noteq> []" and "rect geo = (min_x, min_y, max_x, max_y)"
  shows "rect (map (map (\<lambda>p. (fst p, min_y + max_y - snd p))) geo) = (min_x, min_y, max_x, max_y)"
proof -
  let ?f = "\<lambda>p::point. (fst p, min_y + max_y - snd p)"
  define ps where "ps = concat geo"
  have ne: "ps \<noteq> []" using assms(1) by (simp add: ps_def)
  have c: "concat (map (map ?f) geo) = map ?f ps" by (simp add: map_concat ps_def)
  have xs: "map fst (map ?f ps) = map fst ps" by simp
  have ys: "set (map snd (map ?f ps)) = (\<lambda>y. min_y + max_y - y) ` set (map snd ps)"
    by (simp add: image_comp o_def)
  have fin: "finite (set (map snd ps))" "set (map snd ps) \<noteq> {}" using ne by simp_all
  from assms(2) ne have r: "Min (set (map fst ps)) = min_x" "Min (set (map snd ps)) = min_y"
    "Max (set (map fst ps)) = max_x" "Max (set (map snd ps)) = max_y"
    unfolding rect_def ps_def[symmetric] by (simp_all only: if_False prod.inject)
  have "Min (set (map snd (map ?f ps))) = min_y"
    unfolding ys Min_image_minus[OF fin] using r by simp
  moreover have "Max (set (map snd (map ?f ps))) = max_y"
    unfolding ys Max_image_minus[OF fin] using r by simp
  moreover have "map ?f ps \<noteq> []" using ne by simp
  ultimately show ?thesis unfolding rect_def c xs using r(1,3) by (simp only: if_False)
qed

lemma placement_point:
  fixes w h :: real
  assumes "0 < w" and "0 < h"
  shows "apply_matrix (matmul (translation a b) (scale w h)) ((x - a) / w, 1 - (y - b) / h) =
         (x, b + (b + h) - y)"
proof -
  have "w * ((x - a) / w) = x - a" using assms(1) by simp
  moreover have "h * (1 - (y - b) / h) = h - (y - b)"
  proof -
    have "h * ((y - b) / h) = y - b" using assms(2) by simp
    moreover have "h * (1 - (y - b) / h) = h * 1 - h * ((y - b) / h)"
      by (rule right_diff_distrib)
    ultimately show ?thesis by (simp only: mult_1_right)
  qed
  ultimately show ?thesis
    by (simp add: apply_matrix_def matmul_def translation_def scale_def)
qed

lemma placement_of_normalized:
  assumes "rect geo = (min_x, min_y, max_x, max_y)" and "0 < max_x - min_x" and "0 < max_y - min_y"
    and "normalize_geometry geo = Inr norm_geo"
  shows "transform norm_geo (placement geo) = map (map (\<lambda>p. (fst p, min_y + max_y - snd p))) geo"
proof -
  have pt: "apply_matrix (matmul (translation min_x min_y) (scale (max_x - min_x) (max_y - min_y)))
              ((fst p - min_x) / (max_x - min_x), 1 - (snd p - min_y) / (max_y - min_y)) =
            (fst p, min_y + max_y - snd p)" for p :: point
    using placement_point[OF assms(2,3), of min_x min_y "fst p" "snd p"] by simp
  from normalize_geometry_pointwise[OF assms(1)] assms(2,3,4)
  have "norm_geo = map (map (\<lambda>p. ((fst p - min_x) / (max_x - min_x), 1 - (snd p - min_y) / (max_y - min_y)))) geo"
    by simp
  then show ?thesis using assms(1) pt by (simp add: transform_def placement_def o_def)
qed

section \<open>The claims\<close>

text \<open>
  C2. Among the planar faces of an object, the face used for the alignment is a planar
  face of that object whose area is at least the area of every planar face; with no
  planar face, none is selected. Ties are settled by the enumeration order: the selected
  face is the first one that attains the largest area, so the choice is a function of the
  kernel's answers. A face is selected whenever there is a planar face and every area
  query answers.
\<close>

theorem largest_planar_face_selected:
  "largest_face [] = Inr None \<and>
   (planar_faces obj = Inr [] \<longrightarrow> try_align obj = Inr None) \<and>
   (largest_face fs = Inr (Some f) \<longrightarrow>
      (\<exists>i a. i < length fs \<and> f = fs ! i \<and> Area f = Inr a \<and>
         (\<forall>g\<in>set fs. \<exists>b. Area g = Inr b \<and> b \<le> a) \<and>
         (\<forall>j<i. \<exists>b. Area (fs ! j) = Inr b \<and> b < a))) \<and>
   (fs \<noteq> [] \<and> (\<forall>g\<in>set fs. \<not> isl (Area g)) \<longrightarrow> (\<exists>f. largest_face fs = Inr (Some f)))"
proof (intro conjI impI)
  show "largest_face [] = Inr None" by (simp add: largest_face_def)
next
  assume "planar_faces obj = Inr []"
  then show "try_align obj = Inr None" by (simp add: try_align_def largest_face_def)
next
  assume "largest_face fs = Inr (Some f)"
  from largest_face_Some[OF this] obtain ks i where ks: "eval_keys fs = Inr ks"
    and i: "i < length fs" "f = fs ! i" "\<forall>j<length fs. ks ! j \<le> ks ! i" "\<forall>j<i. ks ! j < ks ! i"
    by blast
  have areas: "map Area fs = map Inr ks" by (rule eval_keys_Inr[OF ks])
  then have len: "length ks = length fs" by (metis length_map)
  have nth: "Area (fs ! j) = Inr (ks ! j)" if "j < length fs" for j
    using that areas len by (metis nth_map)
  have "\<forall>g\<in>set fs. \<exists>b. Area g = Inr b \<and> b \<le> ks ! i"
  proof
    fix g assume "g \<in> set fs"
    then obtain j where "j < length fs" "g = fs ! j" by (metis in_set_conv_nth)
    then show "\<exists>b. Area g = Inr b \<and> b \<le> ks ! i" using nth i(3) by auto
  qed
  moreover have "\<forall>j<i. \<exists>b. Area (fs ! j) = Inr b \<and> b < ks ! i"
    using nth i(1,4) by auto
  ultimately show "\<exists>i a. i < length fs \<and> f = fs ! i \<and> Area f = Inr a \<and>
         (\<forall>g\<in>set fs. \<exists>b. Area g = Inr b \<and> b \<le> a) \<and>
         (\<forall>j<i. \<exists>b. Area (fs ! j) = Inr b \<and> b < a)"
    using i(1,2) nth by blast
next
  assume a: "fs \<noteq> [] \<and> (\<forall>g\<in>set fs. \<not> isl (Area g))"
  then obtain ks where "eval_keys fs = Inr ks" using eval_keys_total by blast
  with a show "\<exists>f. largest_face fs = Inr (Some f)"
    by (simp add: largest_face_def sort_faces_def)
qed

theorem largest_planar_face_selected_witness:
  "sample_faces \<noteq> [] \<and> largest_face sample_faces = Inr (Some (sample_faces ! 1)) \<and>
   (\<exists>i a. i < length sample_faces \<and> sample_faces ! 1 = sample_faces ! i \<and>
      Area (sample_faces ! 1) = Inr a \<and>
      (\<forall>g\<in>set sample_faces. \<exists>b. Area g = Inr b \<and> b \<le> a) \<and>
      (\<forall>j<i. \<exists>b. Area (sample_faces ! j) = Inr b \<and> b < a))"
proof -
  have ne: "sample_faces \<noteq> []" by (simp add: sample_faces_def)
  have h: "largest_face sample_faces = Inr (Some (sample_faces ! 1))"
    by (simp add: sample_faces_def flat_face_def largest_face_def sort_faces_def)
  have "\<exists>i a. i < length sample_faces \<and> sample_faces ! 1 = sample_faces ! i \<and>
      Area (sample_faces ! 1) = Inr a \<and>
      (\<forall>g\<in>set sample_faces. \<exists>b. Area g = Inr b \<and> b \<le> a) \<and>
      (\<forall>j<i. \<exists>b. Area (sample_faces ! j) = Inr b \<and> b < a)"
    using largest_planar_face_selected[of "object_with []" sample_faces "sample_faces ! 1"] h
    by blast
  with ne h show ?thesis by blast
qed

text \<open>
  C4. The primary object is the first solid when the model has a solid, else the first
  shell when it has a shell, else the first loose face. A model with no solid, no shell
  and no face has no primary object, and the import then returns \<open>None\<close>, whatever the
  model's default projection would have given.
\<close>

theorem primary_object_precedence:
  "(solids m = Inr (s # ss) \<longrightarrow> primary_object m = Inr (Some s)) \<and>
   (solids m = Inr [] \<and> shells m = Inr (s # ss) \<longrightarrow> primary_object m = Inr (Some s)) \<and>
   (solids m = Inr [] \<and> shells m = Inr [] \<and> faces m = Inr (s # ss) \<longrightarrow>
      primary_object m = Inr (Some s)) \<and>
   (solids m = Inr [] \<and> shells m = Inr [] \<and> faces m = Inr [] \<longrightarrow>
      primary_object m = Inr None \<and>
      (importStep w (raw_data imp) = Inr m \<and> NamedTemporaryFile w = Inr tmp_path \<longrightarrow>
         get_doc_items w imp = Inr None))"
  by (simp add: primary_object_def target_objects_def try_body_def get_doc_items_def)

theorem primary_object_precedence_witness:
  "primary_object plate_model = Inr (Some (object_with sample_faces)) \<and>
   primary_object empty_model = Inr None \<and>
   get_doc_items (kernel_world empty_model) step_importer = Inr None"
proof -
  have a: "solids plate_model = Inr (object_with sample_faces # [])"
    by (simp add: plate_model_def solid_model_def)
  have b: "solids empty_model = Inr [] \<and> shells empty_model = Inr [] \<and> faces empty_model = Inr []"
    by (simp add: empty_model_def)
  have c: "importStep (kernel_world empty_model) (raw_data step_importer) = Inr empty_model \<and>
           NamedTemporaryFile (kernel_world empty_model) = Inr ''/tmp/tmp0.step''"
    by (simp add: kernel_world_def)
  from primary_object_precedence[of plate_model "object_with sample_faces" "[]"] a
  have "primary_object plate_model = Inr (Some (object_with sample_faces))" by blast
  moreover from
    primary_object_precedence[of empty_model _ _ "kernel_world empty_model" step_importer
      "''/tmp/tmp0.step''"] b c
  have "primary_object empty_model = Inr None \<and>
        get_doc_items (kernel_world empty_model) step_importer = Inr None" by blast
  ultimately show ?thesis by blast
qed

text \<open>
  C3. For a parsed model with a primary object: when the object has no planar face, or
  when the enumeration of the planar faces, an area query of the sort, or the construction
  of the aligned projection raises, the alignment yields nothing, the projection is the
  model's own \<open>toPending()\<close> and the body continues with it. An exception can leave the
  projection stage only from that fallback, never from the alignment, and none reaches the
  caller.
\<close>

theorem alignment_falls_back:
  assumes "importStep w (raw_data imp) = Inr m" and "primary_object m = Inr (Some obj)"
  shows "(planar_faces obj = Inr [] \<or> isl (planar_faces obj) \<or>
          (\<exists>fs. planar_faces obj = Inr fs \<and>
             ((\<exists>f\<in>set fs. isl (Area f)) \<or>
              (\<exists>f. largest_face fs = Inr (Some f) \<and> isl (aligned_projection f)))) \<longrightarrow>
            auto_align obj = None \<and> choose_projection m obj = toPending m \<and>
            try_body w imp =
              (case toPending m of Inl e \<Rightarrow> Inl e | Inr projection \<Rightarrow> convert w imp projection)) \<and>
         (choose_projection m obj = Inl e \<longrightarrow> toPending m = Inl e) \<and>
         (NamedTemporaryFile w = Inr tmp_path \<longrightarrow> \<not> isl (get_doc_items w imp))"
proof (intro conjI impI)
  assume c: "planar_faces obj = Inr [] \<or> isl (planar_faces obj) \<or>
          (\<exists>fs. planar_faces obj = Inr fs \<and>
             ((\<exists>f\<in>set fs. isl (Area f)) \<or>
              (\<exists>f. largest_face fs = Inr (Some f) \<and> isl (aligned_projection f))))"
  have "try_align obj = Inr None \<or> isl (try_align obj)"
  proof (cases "planar_faces obj = Inr []")
    case True
    then show ?thesis by (simp add: try_align_def largest_face_def)
  next
    case False
    with c show ?thesis using try_align_raises_iff[of obj] by blast
  qed
  then show a: "auto_align obj = None"
    by (auto simp: auto_align_def split: sum.splits)
  then show p: "choose_projection m obj = toPending m"
    by (simp add: choose_projection_def)
  show "try_body w imp =
      (case toPending m of Inl e \<Rightarrow> Inl e | Inr projection \<Rightarrow> convert w imp projection)"
    using assms p by (simp add: try_body_def)
next
  assume "choose_projection m obj = Inl e"
  then show "toPending m = Inl e"
    by (simp add: choose_projection_def split: option.splits)
next
  assume "NamedTemporaryFile w = Inr tmp_path"
  then show "\<not> isl (get_doc_items w imp)" using get_doc_items_no_exception by blast
qed


theorem alignment_falls_back_witness:
  "importStep (kernel_world curved_model) (raw_data step_importer) = Inr curved_model \<and>
   primary_object curved_model = Inr (Some curved_object) \<and>
   planar_faces curved_object = Inr [flat_face 2 (outline (0, 0) (1, 1)), raising_face] \<and>
   isl (Area raising_face) \<and>
   auto_align curved_object = None \<and>
   choose_projection curved_model curved_object = toPending curved_model \<and>
   try_body (kernel_world curved_model) step_importer =
     convert (kernel_world curved_model) step_importer (outline (0, 0) (4, 2)) \<and>
   \<not> isl (get_doc_items (kernel_world curved_model) step_importer)"
proof -
  have a: "importStep (kernel_world curved_model) (raw_data step_importer) = Inr curved_model"
    by (simp add: kernel_world_def)
  have b: "primary_object curved_model = Inr (Some curved_object)"
    by (simp add: primary_object_def target_objects_def curved_model_def solid_model_def)
  have c: "planar_faces curved_object = Inr [flat_face 2 (outline (0, 0) (1, 1)), raising_face]"
    by (simp add: curved_object_def object_with_def)
  have d: "isl (Area raising_face)" by (simp add: raising_face_def)
  have t: "NamedTemporaryFile (kernel_world curved_model) = Inr ''/tmp/tmp0.step''"
    by (simp add: kernel_world_def)
  have f: "toPending curved_model = Inr (outline (0, 0) (4, 2))"
    by (simp add: curved_model_def solid_model_def)
  from c d have "\<exists>fs. planar_faces curved_object = Inr fs \<and>
             ((\<exists>f\<in>set fs. isl (Area f)) \<or>
              (\<exists>f. largest_face fs = Inr (Some f) \<and> isl (aligned_projection f)))"
    by simp
  with alignment_falls_back[OF a b, of KernelError "''/tmp/tmp0.step''"] t
  have "auto_align curved_object = None \<and>
        choose_projection curved_model curved_object = toPending curved_model \<and>
        try_body (kernel_world curved_model) step_importer =
          (case toPending curved_model of
             Inl e \<Rightarrow> Inl e
           | Inr projection \<Rightarrow> convert (kernel_world curved_model) step_importer projection) \<and>
        \<not> isl (get_doc_items (kernel_world curved_model) step_importer)"
    by blast
  with a b c d f show ?thesis by simp
qed






end
